theory Spec2Isabelle
  imports Main "HOL-Library.Multiset"
begin

section \<open>Data model of \<^verbatim>\<open>src/codigo.py\<close>\<close>

text \<open>
  The dataclass \<^verbatim>\<open>No\<close> has the fields \<^verbatim>\<open>chave\<close>, \<^verbatim>\<open>esquerda\<close>, \<^verbatim>\<open>direita\<close> and
  \<^verbatim>\<open>altura_atributo\<close> (default \<^verbatim>\<open>1\<close>).  A reference of type \<^verbatim>\<open>No | None\<close> is a value of
  the datatype below: \<open>Nulo\<close> is Python's \<^verbatim>\<open>None\<close>.  Every node of the program has at most
  one parent, so the object graph reachable from a reference is a tree and an in-place update
  of a field is the construction of the updated tree.  Keys are Python values compared with
  \<^verbatim>\<open><\<close> and \<^verbatim>\<open>>\<close>; they are taken from a linear order.
\<close>

datatype 'a no =
    Nulo
  | No (chave: 'a) (esquerda: "'a no") (direita: "'a no") (altura_atributo: int)

text \<open>The constructor call \<^verbatim>\<open>No(chave)\<close>: both children absent, the default height \<^verbatim>\<open>1\<close>.\<close>

definition novo_no :: "'a \<Rightarrow> 'a no" where
  "novo_no k = No k Nulo Nulo 1"

text \<open>The only exception the tree code can raise: an attribute read on \<^verbatim>\<open>None\<close>.\<close>

datatype erro = AttributeError

section \<open>Height and balance (lines 41-82)\<close>

fun altura :: "'a no \<Rightarrow> int" where
  "altura Nulo = - 1"
| "altura (No c l r h) = 1 + max (altura l) (altura r)"

fun fator_balanceamento :: "'a no \<Rightarrow> int" where
  "fator_balanceamento Nulo = 0"
| "fator_balanceamento (No c l r h) = altura l - altura r"

section \<open>Rotations (lines 84-145)\<close>

text \<open>
  \<^verbatim>\<open>rotacao_direita\<close> reads \<^verbatim>\<open>no_raiz.esquerda\<close> and then \<^verbatim>\<open>no_centro.direita\<close>: either read
  raises \<^verbatim>\<open>AttributeError\<close> when its object is \<^verbatim>\<open>None\<close>, before any field is assigned.
  Otherwise the height of \<^verbatim>\<open>no_raiz\<close> is recomputed first, then that of \<^verbatim>\<open>no_centro\<close>.
\<close>

fun rotacao_direita :: "'a no \<Rightarrow> erro + 'a no" where
  "rotacao_direita Nulo = Inl AttributeError"
| "rotacao_direita (No c Nulo r h) = Inl AttributeError"
| "rotacao_direita (No c (No cc cl cr hc) r h) =
     (let no_aux = cr;
          no_raiz = No c no_aux r (1 + max (altura no_aux) (altura r));
          no_centro = No cc cl no_raiz (1 + max (altura cl) (altura no_raiz))
      in Inr no_centro)"

fun rotacao_esquerda :: "'a no \<Rightarrow> erro + 'a no" where
  "rotacao_esquerda Nulo = Inl AttributeError"
| "rotacao_esquerda (No c l Nulo h) = Inl AttributeError"
| "rotacao_esquerda (No c l (No cc cl cr hc) h) =
     (let no_aux = cl;
          no_raiz = No c l no_aux (1 + max (altura l) (altura no_aux));
          no_centro = No cc no_raiz cr (1 + max (altura no_raiz) (altura cr))
      in Inr no_centro)"

section \<open>Insertion (lines 148-206)\<close>

text \<open>
  Lines 189-206 of \<^verbatim>\<open>_insere\<close>, run on the node \<^verbatim>\<open>no\<close> after the assignment of the child
  returned by the recursive call: the cached height is recomputed, then the balance factor
  decides the rotation.  \<^verbatim>\<open>no.esquerda.chave\<close> and \<^verbatim>\<open>no.direita.chave\<close> raise on \<^verbatim>\<open>None\<close>.
  \<^verbatim>\<open>chave > no.direita.chave\<close> is \<open>rc < ch\<close>, where \<open>ch\<close> is the parameter \<^verbatim>\<open>chave\<close>.
\<close>

definition insere_reequilibra :: "'a::linorder \<Rightarrow> 'a \<Rightarrow> 'a no \<Rightarrow> 'a no \<Rightarrow> erro + 'a no" where
  "insere_reequilibra ch c l r =
     (let no = No c l r (1 + max (altura l) (altura r));
          balanceamento = fator_balanceamento no
      in if balanceamento > 1 then
           (case l of
              Nulo \<Rightarrow> Inl AttributeError
            | No lc _ _ _ \<Rightarrow>
                if ch < lc then rotacao_direita no
                else (case rotacao_esquerda l of
                        Inl e \<Rightarrow> Inl e
                      | Inr l' \<Rightarrow> rotacao_direita (No c l' r (altura_atributo no))))
         else if balanceamento < - 1 then
           (case r of
              Nulo \<Rightarrow> Inl AttributeError
            | No rc _ _ _ \<Rightarrow>
                if rc < ch then rotacao_esquerda no
                else (case rotacao_direita r of
                        Inl e \<Rightarrow> Inl e
                      | Inr r' \<Rightarrow> rotacao_esquerda (No c l r' (altura_atributo no))))
         else Inr no)"

text \<open>\<^verbatim>\<open>_insere\<close>: the recursive descent of lines 175-206.\<close>

fun insere_rec :: "'a::linorder no \<Rightarrow> 'a \<Rightarrow> erro + 'a no" where
  "insere_rec Nulo ch = Inr (novo_no ch)"
| "insere_rec (No c l r h) ch =
     (if ch < c then
        (case insere_rec l ch of
           Inl e \<Rightarrow> Inl e
         | Inr l' \<Rightarrow> insere_reequilibra ch c l' r)
      else
        (case insere_rec r ch of
           Inl e \<Rightarrow> Inl e
         | Inr r' \<Rightarrow> insere_reequilibra ch c l r'))"

text \<open>\<^verbatim>\<open>insere\<close>: the new root is what \<^verbatim>\<open>_insere\<close> returns from the old root.\<close>

definition insere :: "'a::linorder no \<Rightarrow> 'a \<Rightarrow> erro + 'a no" where
  "insere raiz ch = insere_rec raiz ch"

section \<open>Minimum and successor (lines 312-362)\<close>

text \<open>
  \<^verbatim>\<open>__minimo\<close> follows left children while there is one; its first read \<^verbatim>\<open>no.esquerda\<close>
  raises on \<^verbatim>\<open>None\<close>.
\<close>

fun minimo :: "'a no \<Rightarrow> erro + 'a no" where
  "minimo Nulo = Inl AttributeError"
| "minimo (No c Nulo r h) = Inr (No c Nulo r h)"
| "minimo (No c (No lc ll lr lh) r h) = minimo (No lc ll lr lh)"

text \<open>
  The loop of lines 340-351, on the key \<^verbatim>\<open>no.chave\<close>, the cursor \<^verbatim>\<open>atual\<close> and the
  candidate \<^verbatim>\<open>sucessor\<close>.
\<close>

fun sucessor_laco :: "'a::linorder \<Rightarrow> 'a no \<Rightarrow> 'a no \<Rightarrow> 'a no" where
  "sucessor_laco k Nulo suc = suc"
| "sucessor_laco k (No c l r h) suc =
     (if k < c then sucessor_laco k l (No c l r h)
      else if c < k then sucessor_laco k r suc
      else suc)"

text \<open>
  \<^verbatim>\<open>__sucessor\<close> reads \<^verbatim>\<open>self.raiz\<close>: the first argument is the tree that \<^verbatim>\<open>self.raiz\<close>
  refers to at the moment of the call.
\<close>

fun sucessor :: "'a::linorder no \<Rightarrow> 'a no \<Rightarrow> erro + 'a no" where
  "sucessor raiz Nulo = Inr Nulo"
| "sucessor raiz (No c l r h) =
     (if r \<noteq> Nulo then minimo r else Inr (sucessor_laco c raiz Nulo))"

section \<open>Deletion (lines 209-273)\<close>

text \<open>
  Lines 254-273 of \<^verbatim>\<open>_remove\<close>, run on the node after the assignment of the child returned
  by the recursive call.
\<close>

definition remove_reequilibra :: "'a \<Rightarrow> 'a no \<Rightarrow> 'a no \<Rightarrow> erro + 'a no" where
  "remove_reequilibra c l r =
     (let no = No c l r (1 + max (altura l) (altura r));
          balanceamento = fator_balanceamento no
      in if balanceamento > 1 then
           (if fator_balanceamento l \<ge> 0 then rotacao_direita no
            else (case rotacao_esquerda l of
                    Inl e \<Rightarrow> Inl e
                  | Inr l' \<Rightarrow> rotacao_direita (No c l' r (altura_atributo no))))
         else if balanceamento < - 1 then
           (if fator_balanceamento r \<le> 0 then rotacao_esquerda no
            else (case rotacao_direita r of
                    Inl e \<Rightarrow> Inl e
                  | Inr r' \<Rightarrow> rotacao_esquerda (No c l r' (altura_atributo no))))
         else Inr no)"

text \<open>
  While \<^verbatim>\<open>_remove\<close> descends, no child pointer of the tree has been reassigned yet (each
  assignment follows the return of the recursive call), but the keys of the nodes matched on
  the way have been overwritten (line 252).  \<^verbatim>\<open>__sucessor\<close> walks from \<^verbatim>\<open>self.raiz\<close>, so the
  model carries that tree: \<open>raiz\<close> is what \<^verbatim>\<open>self.raiz\<close> refers to at the call and \<open>cam\<close> is
  the position of \<open>no\<close> in it (\<open>False\<close>: left, \<open>True\<close>: right).
\<close>

fun sobrescreve_chave :: "'a no \<Rightarrow> bool list \<Rightarrow> 'a \<Rightarrow> 'a no" where
  "sobrescreve_chave Nulo cam k = Nulo"
| "sobrescreve_chave (No c l r h) [] k = No k l r h"
| "sobrescreve_chave (No c l r h) (d # cam) k =
     (if d then No c l (sobrescreve_chave r cam k) h
      else No c (sobrescreve_chave l cam k) r h)"

fun remove_rec :: "'a::linorder no \<Rightarrow> bool list \<Rightarrow> 'a no \<Rightarrow> 'a \<Rightarrow> erro + 'a no" where
  "remove_rec raiz cam Nulo ch = Inr Nulo"
| "remove_rec raiz cam (No c l r h) ch =
     (if ch < c then
        (case remove_rec raiz (cam @ [False]) l ch of
           Inl e \<Rightarrow> Inl e
         | Inr l' \<Rightarrow> remove_reequilibra c l' r)
      else if c < ch then
        (case remove_rec raiz (cam @ [True]) r ch of
           Inl e \<Rightarrow> Inl e
         | Inr r' \<Rightarrow> remove_reequilibra c l r')
      else if l = Nulo then Inr r
      else if r = Nulo then Inr l
      else
        (case sucessor raiz r of
           Inl e \<Rightarrow> Inl e
         | Inr Nulo \<Rightarrow> Inl AttributeError
         | Inr (No sc sl sr sh) \<Rightarrow>
             (case remove_rec (sobrescreve_chave raiz cam sc) (cam @ [True]) r sc of
                Inl e \<Rightarrow> Inl e
              | Inr r' \<Rightarrow> remove_reequilibra sc l r')))"

text \<open>\<^verbatim>\<open>remove\<close>: the new root is what \<^verbatim>\<open>_remove\<close> returns from the old root.\<close>

definition remove :: "'a::linorder no \<Rightarrow> 'a \<Rightarrow> erro + 'a no" where
  "remove raiz ch = remove_rec raiz [] raiz ch"

section \<open>K-th largest key (lines 365-427)\<close>

text \<open>
  \<^verbatim>\<open>self.contador\<close> and \<^verbatim>\<open>self.resultado\<close> are the state threaded through the traversal;
  the value returned by \<^verbatim>\<open>_k_esimo_maior\<close> is never used.
\<close>

record 'a estado =
  contador :: int
  resultado :: "'a option"

fun k_esimo_maior_rec :: "'a no \<Rightarrow> int \<Rightarrow> 'a estado \<Rightarrow> 'a estado" where
  "k_esimo_maior_rec Nulo k s = s"
| "k_esimo_maior_rec (No c l r h) k s =
     (if contador s \<ge> k then s
      else
        (let s1 = k_esimo_maior_rec r k s in
         if contador s1 < k then
           (let s2 = s1\<lparr>contador := contador s1 + 1\<rparr> in
            if contador s2 = k then s2\<lparr>resultado := Some c\<rparr>
            else k_esimo_maior_rec l k s2)
         else s1))"

definition k_esimo_maior :: "'a no \<Rightarrow> int \<Rightarrow> 'a option" where
  "k_esimo_maior raiz k =
     resultado (k_esimo_maior_rec raiz k \<lparr>contador = 0, resultado = None\<rparr>)"

section \<open>Pre-order display (lines 430-460)\<close>

text \<open>
  \<^verbatim>\<open>str(raiz.chave)\<close> is the rendering of a key; it is the parameter \<open>str\<close>.
\<close>

fun exibe_pre_ordem_rec :: "('a \<Rightarrow> string) \<Rightarrow> 'a no \<Rightarrow> string" where
  "exibe_pre_ordem_rec str Nulo = ''''"
| "exibe_pre_ordem_rec str (No c l r h) =
     ''('' @ str c
       @ (if l \<noteq> Nulo then '' '' @ exibe_pre_ordem_rec str l else '''')
       @ (if r \<noteq> Nulo then '' '' @ exibe_pre_ordem_rec str r else '''')
       @ '')''"

definition exibe_pre_ordem :: "('a \<Rightarrow> string) \<Rightarrow> 'a no \<Rightarrow> string" where
  "exibe_pre_ordem str raiz = exibe_pre_ordem_rec str raiz"

section \<open>Sequences of public calls\<close>

text \<open>
  A client program that starts from \<^verbatim>\<open>ArvoreAVL()\<close> and calls \<^verbatim>\<open>insere\<close> and \<^verbatim>\<open>remove\<close> in
  turn; an exception ends the run.
\<close>

datatype 'a chamada = Insere 'a | Remove 'a

fun executa :: "'a::linorder no \<Rightarrow> 'a chamada list \<Rightarrow> erro + 'a no" where
  "executa raiz [] = Inr raiz"
| "executa raiz (Insere x # cs) =
     (case insere raiz x of Inl e \<Rightarrow> Inl e | Inr raiz' \<Rightarrow> executa raiz' cs)"
| "executa raiz (Remove x # cs) =
     (case remove raiz x of Inl e \<Rightarrow> Inl e | Inr raiz' \<Rightarrow> executa raiz' cs)"

section \<open>Invariants of the specification\<close>

text \<open>The keys in in-order (left subtree, node, right subtree).\<close>

fun em_ordem :: "'a no \<Rightarrow> 'a list" where
  "em_ordem Nulo = []"
| "em_ordem (No c l r h) = em_ordem l @ c # em_ordem r"

text \<open>The stored keys, node before children.\<close>

fun chaves :: "'a no \<Rightarrow> 'a list" where
  "chaves Nulo = []"
| "chaves (No c l r h) = c # chaves l @ chaves r"

text \<open>Binary-search-tree order: the in-order sequence of keys is non-decreasing.\<close>

definition abb :: "'a::linorder no \<Rightarrow> bool" where
  "abb t = sorted (em_ordem t)"

text \<open>
  The same order node by node: no key of the left subtree is above the key of the node, no key
  of the right subtree is below it.
\<close>

fun abb_nos :: "'a::linorder no \<Rightarrow> bool" where
  "abb_nos Nulo = True"
| "abb_nos (No c l r h) =
     (abb_nos l \<and> abb_nos r
      \<and> (\<forall>x \<in> set (chaves l). x \<le> c) \<and> (\<forall>x \<in> set (chaves r). c \<le> x))"

text \<open>
  The order as the specification words it: every key of the left subtree is strictly below
  the key of the node, every key of the right subtree is not below it.
\<close>

fun abb_estrita :: "'a::linorder no \<Rightarrow> bool" where
  "abb_estrita Nulo = True"
| "abb_estrita (No c l r h) =
     (abb_estrita l \<and> abb_estrita r
      \<and> (\<forall>x \<in> set (chaves l). x < c) \<and> (\<forall>x \<in> set (chaves r). c \<le> x))"

text \<open>
  Whether the descent of \<^verbatim>\<open>_remove\<close> for the key \<open>ch\<close> reaches line 251, that is, matches a
  node that has both children.
\<close>

fun alcanca_sucessor :: "'a::linorder no \<Rightarrow> 'a \<Rightarrow> bool" where
  "alcanca_sucessor Nulo ch = False"
| "alcanca_sucessor (No c l r h) ch =
     (if ch < c then alcanca_sucessor l ch
      else if c < ch then alcanca_sucessor r ch
      else l \<noteq> Nulo \<and> r \<noteq> Nulo)"

text \<open>
  A run of public calls in which no \<^verbatim>\<open>remove\<close> reaches line 251 (checked on the tree each
  call starts from).
\<close>

fun evita_sucessor :: "'a::linorder no \<Rightarrow> 'a chamada list \<Rightarrow> bool" where
  "evita_sucessor raiz [] = True"
| "evita_sucessor raiz (Insere x # cs) =
     (case insere raiz x of Inl e \<Rightarrow> True | Inr raiz' \<Rightarrow> evita_sucessor raiz' cs)"
| "evita_sucessor raiz (Remove x # cs) =
     (\<not> alcanca_sucessor raiz x
      \<and> (case remove raiz x of Inl e \<Rightarrow> True | Inr raiz' \<Rightarrow> evita_sucessor raiz' cs))"

text \<open>AVL balance: at every node the balance factor is \<open>-1\<close>, \<open>0\<close> or \<open>1\<close>.\<close>

fun avl :: "'a no \<Rightarrow> bool" where
  "avl Nulo = True"
| "avl (No c l r h) =
     (avl l \<and> avl r
      \<and> - 1 \<le> fator_balanceamento (No c l r h) \<and> fator_balanceamento (No c l r h) \<le> 1)"


text \<open>Height correctness: every cached height is one more than the larger child height.\<close>

fun alturas_ok :: "'a no \<Rightarrow> bool" where
  "alturas_ok Nulo = True"
| "alturas_ok (No c l r h) =
     (alturas_ok l \<and> alturas_ok r
      \<and> h = 1 + max (case l of Nulo \<Rightarrow> - 1 | No _ _ _ hl \<Rightarrow> hl)
                    (case r of Nulo \<Rightarrow> - 1 | No _ _ _ hr \<Rightarrow> hr))"

section \<open>Properties\<close>

lemma alturas_ok_altura:
  "alturas_ok t \<Longrightarrow> altura t = (case t of Nulo \<Rightarrow> - 1 | No _ _ _ h \<Rightarrow> h)"
  by (induction t) (auto split: no.splits)

subsection \<open>The k-th largest key\<close>

text \<open>
  The traversal visits the keys in reverse in-order and counts them: started with the
  counter below \<open>k\<close>, it stops at the key that brings the counter to \<open>k\<close>, or visits the
  whole subtree.
\<close>

lemma k_esimo_maior_rec_geral:
  "k_esimo_maior_rec t k s =
     (if contador s \<ge> k then s
      else if k - contador s \<le> int (length (em_ordem t))
           then s\<lparr>contador := k, resultado := Some (rev (em_ordem t) ! nat (k - contador s - 1))\<rparr>
           else s\<lparr>contador := contador s + int (length (em_ordem t))\<rparr>)"
proof (induction t arbitrary: s)
  case Nulo
  show ?case by simp
next
  case (No c l r h)
  let ?n = "int (length (em_ordem r))"
  let ?m = "int (length (em_ordem l))"
  let ?xs = "rev (em_ordem (No c l r h))"
  have xs: "?xs = rev (em_ordem r) @ c # rev (em_ordem l)" by simp
  show ?case
  proof (cases "contador s \<ge> k")
    case True
    then show ?thesis by simp
  next
    case lt: False
    show ?thesis
    proof (cases "k - contador s \<le> ?n")
      case True
      with lt have i: "nat (k - contador s - 1) < length (rev (em_ordem r))" by simp
      have "?xs ! nat (k - contador s - 1) = rev (em_ordem r) ! nat (k - contador s - 1)"
        unfolding xs using i by (simp add: nth_append del: rev_rev_ident)
      with True lt show ?thesis by (simp add: No.IH(2) Let_def)
    next
      case far: False
      have s1: "k_esimo_maior_rec r k s = s\<lparr>contador := contador s + ?n\<rparr>"
        using lt far by (simp add: No.IH(2))
      show ?thesis
      proof (cases "contador s + ?n + 1 = k")
        case True
        then have "nat (k - contador s - 1) = length (rev (em_ordem r))" by simp
        then have "?xs ! nat (k - contador s - 1) = c"
          unfolding xs by (simp only: nth_append_length)
        with True lt far show ?thesis by (simp add: s1 Let_def)
      next
        case False
        with far have below: "contador s + ?n + 1 < k" by simp
        show ?thesis
        proof (cases "k - contador s \<le> ?n + 1 + ?m")
          case True
          have idx: "nat (k - contador s - 1) = length (rev (em_ordem r)) + Suc (nat (k - (contador s + ?n + 1) - 1))"
            using below by simp
          have "?xs ! nat (k - contador s - 1) = rev (em_ordem l) ! nat (k - (contador s + ?n + 1) - 1)"
            unfolding xs idx by (simp only: nth_append_length_plus nth_Cons_Suc)
          with True below lt far show ?thesis by (simp add: s1 Let_def No.IH(1))
        next
          case False
          with below lt far show ?thesis by (simp add: s1 Let_def No.IH(1) add.assoc)
        qed
      qed
    qed
  qed
qed

lemma k_esimo_maior_eq:
  "k_esimo_maior t k =
     (if 1 \<le> k \<and> k \<le> int (length (em_ordem t)) then Some (rev (em_ordem t) ! nat (k - 1)) else None)"
  by (simp add: k_esimo_maior_def k_esimo_maior_rec_geral)


lemma mset_em_ordem: "mset (em_ordem t) = mset (chaves t)"
  by (induction t) simp_all

lemma length_em_ordem: "length (em_ordem t) = length (chaves t)"
  using mset_em_ordem [of t] by (metis size_mset)

lemma map_upto_nat:
  "map (\<lambda>k. g (nat (k - 1))) [1..int n] = map g [0..<n]"
proof (induction n)
  case 0
  show ?case by simp
next
  case (Suc n)
  have "[1..int (Suc n)] = [1..int n] @ [int n + 1]"
    using upto_rec2 [of 1 "int (Suc n)"] by simp
  with Suc show ?case by simp
qed

lemma abb_sort_chaves: "abb t \<Longrightarrow> sort (chaves t) = em_ordem t"
  unfolding abb_def by (rule properties_for_sort) (simp_all add: mset_em_ordem)

text \<open>
  C6.  For a tree in binary-search-tree order holding \<open>n\<close> keys, the answers of
  \<^verbatim>\<open>k_esimo_maior\<close> for \<open>k = 1, \<dots>, n\<close> are the stored keys sorted in descending order, and
  for every \<open>k\<close> below \<open>1\<close> or above \<open>n\<close> the answer is \<^verbatim>\<open>None\<close>.
\<close>

theorem k_esimo_maior_correto:
  "abb t \<Longrightarrow>
     map (k_esimo_maior t) [1..int (length (chaves t))] = map Some (rev (sort (chaves t)))
     \<and> (\<forall>k. k < 1 \<or> int (length (chaves t)) < k \<longrightarrow> k_esimo_maior t k = None)"
proof
  assume a: "abb t"
  let ?ys = "rev (em_ordem t)"
  let ?n = "length (chaves t)"
  have "map (k_esimo_maior t) [1..int ?n] = map (\<lambda>k. Some (?ys ! nat (k - 1))) [1..int ?n]"
    by (rule map_cong) (simp_all add: k_esimo_maior_eq length_em_ordem)
  also have "\<dots> = map (\<lambda>i. Some (?ys ! i)) [0..<?n]"
    by (rule map_upto_nat)
  also have "\<dots> = map Some (map (\<lambda>i. ?ys ! i) [0..<length ?ys])"
    by (simp add: length_em_ordem)
  also have "\<dots> = map Some ?ys"
    by (simp only: map_nth)
  finally show "map (k_esimo_maior t) [1..int ?n] = map Some (rev (sort (chaves t)))"
    by (simp add: abb_sort_chaves [OF a])
next
  show "\<forall>k. k < 1 \<or> int (length (chaves t)) < k \<longrightarrow> k_esimo_maior t k = None"
    by (auto simp add: k_esimo_maior_eq length_em_ordem)
qed

text \<open>
  The tree built by inserting 9, 4, 88, 19, 14, 29, 49 (the doctest of \<^verbatim>\<open>k_esimo_maior\<close>).
\<close>

theorem k_esimo_maior_correto_witness:
  "abb (No (19::int) (No 9 (No 4 Nulo Nulo 1) (No 14 Nulo Nulo 1) 1)
                     (No 49 (No 29 Nulo Nulo 0) (No 88 Nulo Nulo 0) 1) 2)
   \<and> map (k_esimo_maior (No (19::int) (No 9 (No 4 Nulo Nulo 1) (No 14 Nulo Nulo 1) 1)
                     (No 49 (No 29 Nulo Nulo 0) (No 88 Nulo Nulo 0) 1) 2)) [1, 2, 3, 4, 5, 6, 7]
       = [Some 88, Some 49, Some 29, Some 19, Some 14, Some 9, Some 4]
   \<and> k_esimo_maior (No (19::int) (No 9 (No 4 Nulo Nulo 1) (No 14 Nulo Nulo 1) 1)
                     (No 49 (No 29 Nulo Nulo 0) (No 88 Nulo Nulo 0) 1) 2) 8 = None
   \<and> k_esimo_maior (No (19::int) (No 9 (No 4 Nulo Nulo 1) (No 14 Nulo Nulo 1) 1)
                     (No 49 (No 29 Nulo Nulo 0) (No 88 Nulo Nulo 0) 1) 2) 0 = None"
proof -
  let ?t = "No (19::int) (No 9 (No 4 Nulo Nulo 1) (No 14 Nulo Nulo 1) 1)
                     (No 49 (No 29 Nulo Nulo 0) (No 88 Nulo Nulo 0) 1) 2"
  have a: "abb ?t" by (simp add: abb_def)
  have u: "[1..7] = [1, 2, 3, 4, 5, 6, (7::int)]" by (simp add: upto_rec1)
  from k_esimo_maior_correto [OF a] u a show ?thesis by simp
qed

subsection \<open>Deleting an absent key\<close>

text \<open>
  With a balance factor in range the rebalancing block of \<^verbatim>\<open>_remove\<close> only rewrites the
  cached height.
\<close>

lemma remove_reequilibra_equilibrado:
  "- 1 \<le> altura l - altura r \<Longrightarrow> altura l - altura r \<le> 1 \<Longrightarrow>
   remove_reequilibra c l r = Inr (No c l r (1 + max (altura l) (altura r)))"
  by (simp add: remove_reequilibra_def Let_def)

lemma remove_rec_ausente:
  "avl t \<Longrightarrow> ch \<notin> set (chaves t) \<Longrightarrow>
   \<exists>t'. remove_rec raiz cam t ch = Inr t' \<and> altura t' = altura t \<and> (t' = Nulo \<longleftrightarrow> t = Nulo)
        \<and> exibe_pre_ordem_rec str t' = exibe_pre_ordem_rec str t"
proof (induction t arbitrary: raiz cam)
  case Nulo
  show ?case by simp
next
  case (No c l r h)
  from No.prems have bal: "- 1 \<le> altura l - altura r" "altura l - altura r \<le> 1"
    and al: "avl l" and ar: "avl r"
    and nl: "ch \<notin> set (chaves l)" and nr: "ch \<notin> set (chaves r)" and ne: "ch \<noteq> c"
    by auto
  show ?case
  proof (cases "ch < c")
    case True
    from No.IH(1) [OF al nl, of raiz "cam @ [False]"]
    obtain l' where l': "remove_rec raiz (cam @ [False]) l ch = Inr l'"
      "altura l' = altura l" "l' = Nulo \<longleftrightarrow> l = Nulo"
      "exibe_pre_ordem_rec str l' = exibe_pre_ordem_rec str l"
      by blast
    have "remove_reequilibra c l' r = Inr (No c l' r (1 + max (altura l') (altura r)))"
      using bal l'(2) by (simp add: remove_reequilibra_equilibrado)
    with True l' show ?thesis by simp
  next
    case False
    with ne have gt: "c < ch" by simp
    from No.IH(2) [OF ar nr, of raiz "cam @ [True]"]
    obtain r' where r': "remove_rec raiz (cam @ [True]) r ch = Inr r'"
      "altura r' = altura r" "r' = Nulo \<longleftrightarrow> r = Nulo"
      "exibe_pre_ordem_rec str r' = exibe_pre_ordem_rec str r"
      by blast
    have "remove_reequilibra c l r' = Inr (No c l r' (1 + max (altura l) (altura r')))"
      using bal r'(2) by (simp add: remove_reequilibra_equilibrado)
    with False gt r' show ?thesis by simp
  qed
qed

text \<open>
  C9.  On a tree whose every node is balanced, \<^verbatim>\<open>remove\<close> of a key that is stored nowhere
  returns normally, and the pre-order text of the tree after the call is the text before it.
\<close>

theorem remove_ausente_sem_efeito:
  "avl raiz \<Longrightarrow> ch \<notin> set (chaves raiz) \<Longrightarrow>
   \<exists>raiz'. remove raiz ch = Inr raiz' \<and> exibe_pre_ordem str raiz' = exibe_pre_ordem str raiz"
  unfolding remove_def exibe_pre_ordem_def
  using remove_rec_ausente [of raiz ch raiz "[]" str] by blast

text \<open>
  The tree built by inserting 10, 5, 12, and the absent key 7: the call only rewrites cached
  heights on its path.
\<close>

theorem remove_ausente_sem_efeito_witness:
  "avl (No (10::int) (No 5 Nulo Nulo 1) (No 12 Nulo Nulo 1) 2)
   \<and> 7 \<notin> set (chaves (No (10::int) (No 5 Nulo Nulo 1) (No 12 Nulo Nulo 1) 2))
   \<and> remove (No (10::int) (No 5 Nulo Nulo 1) (No 12 Nulo Nulo 1) 2) 7
       = Inr (No 10 (No 5 Nulo Nulo 0) (No 12 Nulo Nulo 1) 1)
   \<and> exibe_pre_ordem (\<lambda>k. if k = 10 then ''10'' else if k = 5 then ''5'' else ''12'')
         (No (10::int) (No 5 Nulo Nulo 0) (No 12 Nulo Nulo 1) 1)
       = exibe_pre_ordem (\<lambda>k. if k = 10 then ''10'' else if k = 5 then ''5'' else ''12'')
         (No (10::int) (No 5 Nulo Nulo 1) (No 12 Nulo Nulo 1) 2)"
proof -
  let ?t = "No (10::int) (No 5 Nulo Nulo 1) (No 12 Nulo Nulo 1) 2"
  let ?str = "\<lambda>k::int. if k = 10 then ''10'' else if k = 5 then ''5'' else ''12''"
  have a: "avl ?t" by simp
  have b: "7 \<notin> set (chaves ?t)" by simp
  have c: "remove ?t 7 = Inr (No 10 (No 5 Nulo Nulo 0) (No 12 Nulo Nulo 1) 1)"
    by (simp add: remove_def remove_reequilibra_def)
  from remove_ausente_sem_efeito [OF a b, of ?str] a b c show ?thesis by simp
qed

subsection \<open>Runs of the code on concrete trees\<close>

lemmas avalia = insere_def remove_def insere_reequilibra_def remove_reequilibra_def
  novo_no_def Let_def abb_def

text \<open>
  C1.  The code at a matched node with two children.  On the tree built by inserting 50, 30,
  70, 60, 80 (and then deleting the absent keys 29, 59 and 81, which leaves every cached height
  correct), the leftmost node of the right subtree of the root holds 60, but line 251 asks
  \<^verbatim>\<open>__sucessor\<close> for the successor of the right child, which holds 80: \<^verbatim>\<open>remove(50)\<close> writes 80
  into the root and deletes 80 from the right subtree, and 60 stays below the new root key.
\<close>

theorem remove_copia_sucessor_do_filho:
  "executa Nulo [Insere 50, Insere 30, Insere 70, Insere 60, Insere 80,
                 Remove 29, Remove 59, Remove (81::int)]
     = Inr (No 50 (No 30 Nulo Nulo 0) (No 70 (No 60 Nulo Nulo 0) (No 80 Nulo Nulo 0) 1) 2)
   \<and> abb (No (50::int) (No 30 Nulo Nulo 0) (No 70 (No 60 Nulo Nulo 0) (No 80 Nulo Nulo 0) 1) 2)
   \<and> avl (No (50::int) (No 30 Nulo Nulo 0) (No 70 (No 60 Nulo Nulo 0) (No 80 Nulo Nulo 0) 1) 2)
   \<and> alturas_ok
        (No (50::int) (No 30 Nulo Nulo 0) (No 70 (No 60 Nulo Nulo 0) (No 80 Nulo Nulo 0) 1) 2)
   \<and> minimo (No 70 (No 60 Nulo Nulo 0) (No 80 Nulo Nulo 0) 1) = Inr (No (60::int) Nulo Nulo 0)
   \<and> sucessor (No 50 (No 30 Nulo Nulo 0) (No 70 (No 60 Nulo Nulo 0) (No 80 Nulo Nulo 0) 1) 2)
        (No 70 (No 60 Nulo Nulo 0) (No 80 Nulo Nulo 0) 1) = Inr (No (80::int) Nulo Nulo 0)
   \<and> remove (No 50 (No 30 Nulo Nulo 0) (No 70 (No 60 Nulo Nulo 0) (No 80 Nulo Nulo 0) 1) 2) 50
     = Inr (No (80::int) (No 30 Nulo Nulo 0) (No 70 (No 60 Nulo Nulo 0) Nulo 1) 2)"
  by (simp add: avalia)

text \<open>
  The same line 251 breaks the order of the keys.  After the calls insert 10, 5, 15, 12, 20
  and delete 10, from the empty tree, the in-order sequence is 5, 20, 12, 15.
\<close>

theorem remove_quebra_ordem:
  "executa Nulo [Insere 10, Insere 5, Insere 15, Insere 12, Insere 20, Remove (10::int)]
     = Inr (No 20 (No 5 Nulo Nulo 1) (No 15 (No 12 Nulo Nulo 1) Nulo 1) 2)
   \<and> em_ordem (No (20::int) (No 5 Nulo Nulo 1) (No 15 (No 12 Nulo Nulo 1) Nulo 1) 2)
     = [5, 20, 12, 15]
   \<and> \<not> abb (No (20::int) (No 5 Nulo Nulo 1) (No 15 (No 12 Nulo Nulo 1) Nulo 1) 2)"
  by (simp add: avalia)

text \<open>
  C3.  The code on a tree that satisfies every invariant (built by inserting 10, 5, 12 and
  deleting the absent keys 4 and 13): \<^verbatim>\<open>remove(10)\<close> matches the root, which has two children;
  the successor of the right child is \<^verbatim>\<open>None\<close> and line 252 reads \<^verbatim>\<open>temp.chave\<close> on it.
\<close>

theorem remove_levanta_erro:
  "executa Nulo [Insere 10, Insere 5, Insere 12, Remove 4, Remove (13::int)]
     = Inr (No 10 (No 5 Nulo Nulo 0) (No 12 Nulo Nulo 0) 1)
   \<and> abb (No (10::int) (No 5 Nulo Nulo 0) (No 12 Nulo Nulo 0) 1)
   \<and> avl (No (10::int) (No 5 Nulo Nulo 0) (No 12 Nulo Nulo 0) 1)
   \<and> alturas_ok (No (10::int) (No 5 Nulo Nulo 0) (No 12 Nulo Nulo 0) 1)
   \<and> remove (No (10::int) (No 5 Nulo Nulo 0) (No 12 Nulo Nulo 0) 1) 10 = Inl AttributeError"
  by (simp add: avalia)

text \<open>
  C4.  The code on the first insertion into the empty tree: the new leaf keeps the default
  \<^verbatim>\<open>altura_atributo = 1\<close> of the dataclass, while \<open>1 + max (-1) (-1)\<close> is \<open>0\<close>.
\<close>

theorem insere_folha_altura_um:
  "insere Nulo (10::int) = Inr (No 10 Nulo Nulo 1)
   \<and> altura_atributo (No (10::int) Nulo Nulo 1) \<noteq> 1 + max (- 1) (- 1)
   \<and> \<not> alturas_ok (No (10::int) Nulo Nulo 1)"
  by (simp add: avalia)

text \<open>
  C7.  The code on the insertions 10, 5, 20, 15, 25, 20 from the empty tree.  The second 20
  goes to the right of the first (a tie routes right), the root becomes right-heavy, and the
  test \<^verbatim>\<open>chave > no.direita.chave\<close> of line 200 is false on the tie: the right-left double
  rotation runs where the right-right single rotation was due, and the node holding 20 is left
  with the balance factor \<open>-2\<close>.
\<close>

theorem insere_duplicada_desequilibra:
  "executa Nulo [Insere 10, Insere 5, Insere 20, Insere 15, Insere 25, Insere (20::int)]
     = Inr (No 15 (No 10 (No 5 Nulo Nulo 1) Nulo 1)
                  (No 20 Nulo (No 25 (No 20 Nulo Nulo 1) Nulo 1) 2) 3)
   \<and> fator_balanceamento (No (20::int) Nulo (No 25 (No 20 Nulo Nulo 1) Nulo 1) 2) = - 2
   \<and> \<not> avl (No (15::int) (No 10 (No 5 Nulo Nulo 1) Nulo 1)
                  (No 20 Nulo (No 25 (No 20 Nulo Nulo 1) Nulo 1) 2) 3)"
  by (simp add: avalia)

text \<open>
  C8.  The code on the insertions 10, 20, 20 from the empty tree: the third call routes the
  duplicate to the right twice, the root becomes right-heavy, the test of line 200 is false on
  the tie, and \<^verbatim>\<open>rotacao_direita(no.direita)\<close> reads \<^verbatim>\<open>no_centro.direita\<close> on \<^verbatim>\<open>None\<close>.
\<close>

theorem insere_duplicada_levanta_erro:
  "executa Nulo [Insere 10, Insere (20::int)] = Inr (No 10 Nulo (No 20 Nulo Nulo 1) 1)
   \<and> executa Nulo [Insere 10, Insere 20, Insere (20::int)] = Inl AttributeError
   \<and> abb (No (10::int) Nulo (No 20 Nulo Nulo 1) 1)
   \<and> avl (No (10::int) Nulo (No 20 Nulo Nulo 1) 1)
   \<and> insere (No (10::int) Nulo (No 20 Nulo Nulo 1) 1) 20 = Inl AttributeError"
  by (simp add: avalia)

subsection \<open>Order of the keys\<close>

text \<open>Rotations and the two rebalancing blocks keep the in-order sequence of keys.\<close>

lemma rotacao_direita_em_ordem:
  "rotacao_direita t = Inr t' \<Longrightarrow> em_ordem t' = em_ordem t"
  by (induction t rule: rotacao_direita.induct) (auto simp add: Let_def)

lemma rotacao_esquerda_em_ordem:
  "rotacao_esquerda t = Inr t' \<Longrightarrow> em_ordem t' = em_ordem t"
  by (induction t rule: rotacao_esquerda.induct) (auto simp add: Let_def)

lemma insere_reequilibra_em_ordem:
  assumes "insere_reequilibra ch c l r = Inr t'"
  shows "em_ordem t' = em_ordem l @ c # em_ordem r"
  using assms
  by (auto simp add: insere_reequilibra_def Let_def
      dest!: rotacao_direita_em_ordem rotacao_esquerda_em_ordem
      split: if_splits no.splits sum.splits)

lemma remove_reequilibra_em_ordem:
  assumes "remove_reequilibra c l r = Inr t'"
  shows "em_ordem t' = em_ordem l @ c # em_ordem r"
  using assms
  by (auto simp add: remove_reequilibra_def Let_def
      dest!: rotacao_direita_em_ordem rotacao_esquerda_em_ordem
      split: if_splits sum.splits)

lemma set_em_ordem: "set (em_ordem t) = set (chaves t)"
  by (induction t) auto

lemma abb_nos_iff: "abb_nos t \<longleftrightarrow> abb t"
  unfolding abb_def
  by (induction t) (auto simp add: sorted_append set_em_ordem intro: order_trans)

text \<open>
  A deletion that does not reach line 251 removes at most the matched node; the remaining
  keys stay in order.
\<close>

lemma remove_rec_simples:
  "\<not> alcanca_sucessor t ch \<Longrightarrow> remove_rec raiz cam t ch = Inr t' \<Longrightarrow>
     sorted (em_ordem t) \<Longrightarrow> sorted (em_ordem t') \<and> set (em_ordem t') \<subseteq> set (em_ordem t)"
proof (induction t arbitrary: raiz cam t')
  case Nulo
  then show ?case by simp
next
  case (No c l r h)
  from No.prems(3) have sl: "sorted (em_ordem l)" and sr: "sorted (em_ordem r)"
    by (simp_all add: sorted_append)
  consider (esq) "ch < c" | (dir) "c < ch" | (igual) "ch = c" by fastforce
  then show ?case
  proof cases
    case esq
    with No.prems obtain l' where l': "remove_rec raiz (cam @ [False]) l ch = Inr l'"
      and t': "remove_reequilibra c l' r = Inr t'" and n: "\<not> alcanca_sucessor l ch"
      by (auto split: sum.splits)
    from No.IH(1) [OF n l' sl] have "sorted (em_ordem l')" "set (em_ordem l') \<subseteq> set (em_ordem l)"
      by simp_all
    with No.prems(3) show ?thesis
      unfolding remove_reequilibra_em_ordem [OF t'] by (auto simp add: sorted_append)
  next
    case dir
    then have "\<not> ch < c" by simp
    with dir No.prems obtain r' where r': "remove_rec raiz (cam @ [True]) r ch = Inr r'"
      and t': "remove_reequilibra c l r' = Inr t'" and n: "\<not> alcanca_sucessor r ch"
      by (auto split: sum.splits)
    from No.IH(2) [OF n r' sr] have "sorted (em_ordem r')" "set (em_ordem r') \<subseteq> set (em_ordem r)"
      by simp_all
    with No.prems(3) show ?thesis
      unfolding remove_reequilibra_em_ordem [OF t'] by (auto simp add: sorted_append)
  next
    case igual
    with No.prems(1) have "l = Nulo \<or> r = Nulo" by simp
    with igual No.prems(2) sl sr show ?thesis by (auto split: if_splits)
  qed
qed


text \<open>
  An insertion that returns has added the key once, and in its place in the order.
\<close>

lemma insere_rec_em_ordem:
  "insere_rec t ch = Inr t' \<Longrightarrow>
     mset (em_ordem t') = add_mset ch (mset (em_ordem t))
     \<and> (sorted (em_ordem t) \<longrightarrow> sorted (em_ordem t'))"
proof (induction t arbitrary: t')
  case Nulo
  then show ?case by (auto simp add: novo_no_def)
next
  case (No c l r h)
  show ?case
  proof (cases "ch < c")
    case True
    with No.prems obtain l' where l': "insere_rec l ch = Inr l'"
      and t': "insere_reequilibra ch c l' r = Inr t'"
      by (auto split: sum.splits)
    from No.IH(1) [OF l'] have m: "mset (em_ordem l') = add_mset ch (mset (em_ordem l))"
      and s: "sorted (em_ordem l) \<longrightarrow> sorted (em_ordem l')" by simp_all
    from m have st: "set (em_ordem l') = insert ch (set (em_ordem l))"
      by (metis set_mset_add_mset_insert set_mset_mset)
    have e: "em_ordem t' = em_ordem l' @ c # em_ordem r"
      by (rule insere_reequilibra_em_ordem [OF t'])
    show ?thesis using True m s st unfolding e
      by (auto simp add: sorted_append)
  next
    case False
    with No.prems obtain r' where r': "insere_rec r ch = Inr r'"
      and t': "insere_reequilibra ch c l r' = Inr t'"
      by (auto split: sum.splits)
    from No.IH(2) [OF r'] have m: "mset (em_ordem r') = add_mset ch (mset (em_ordem r))"
      and s: "sorted (em_ordem r) \<longrightarrow> sorted (em_ordem r')" by simp_all
    from m have st: "set (em_ordem r') = insert ch (set (em_ordem r))"
      by (metis set_mset_add_mset_insert set_mset_mset)
    have e: "em_ordem t' = em_ordem l @ c # em_ordem r'"
      by (rule insere_reequilibra_em_ordem [OF t'])
    show ?thesis using False m s st unfolding e
      by (auto simp add: sorted_append)
  qed
qed

lemma insere_abb: "abb t \<Longrightarrow> insere t ch = Inr t' \<Longrightarrow> abb t'"
  using insere_rec_em_ordem [of t ch t'] by (simp add: abb_def insere_def)

lemma remove_simples_abb:
  "abb t \<Longrightarrow> \<not> alcanca_sucessor t ch \<Longrightarrow> remove t ch = Inr t' \<Longrightarrow> abb t'"
  using remove_rec_simples [of t ch t "[]" t'] by (simp add: abb_def remove_def)

lemma executa_abb:
  "abb raiz \<Longrightarrow> evita_sucessor raiz cs \<Longrightarrow> executa raiz cs = Inr t \<Longrightarrow> abb t"
proof (induction raiz cs rule: executa.induct)
  case (1 raiz)
  then show ?case by simp
next
  case (2 raiz x cs)
  from "2.prems"(3) obtain raiz' where r: "insere raiz x = Inr raiz'"
    and e: "executa raiz' cs = Inr t"
    by (auto split: sum.splits)
  from "2.prems"(2) r have ev: "evita_sucessor raiz' cs" by simp
  from insere_abb [OF "2.prems"(1) r] have "abb raiz'" .
  from "2.IH" [OF r this ev e] show ?case .
next
  case (3 raiz x cs)
  from "3.prems"(3) obtain raiz' where r: "remove raiz x = Inr raiz'"
    and e: "executa raiz' cs = Inr t"
    by (auto split: sum.splits)
  from "3.prems"(2) r have n: "\<not> alcanca_sucessor raiz x" and ev: "evita_sucessor raiz' cs"
    by simp_all
  from remove_simples_abb [OF "3.prems"(1) n r] have "abb raiz'" .
  from "3.IH" [OF r this ev e] show ?case .
qed

text \<open>
  C2, as stated, fails on the insertions 10, 5, 5 from the empty tree: the second 5 goes to the
  right of the first, the left-right double rotation makes it the root, and the first 5, now
  in the left subtree, is not strictly below the root key.
\<close>

theorem ordem_estrita_falha:
  "executa Nulo [Insere 10, Insere 5, Insere (5::int)]
     = Inr (No 5 (No 5 Nulo Nulo 0) (No 10 Nulo Nulo 0) 1)
   \<and> abb (No (5::int) (No 5 Nulo Nulo 0) (No 10 Nulo Nulo 0) 1)
   \<and> \<not> abb_estrita (No (5::int) (No 5 Nulo Nulo 0) (No 10 Nulo Nulo 0) 1)"
  by (simp add: avalia)

text \<open>
  C2, amended.  For every tree produced from the empty tree by a finite sequence of
  \<^verbatim>\<open>insere\<close> and \<^verbatim>\<open>remove\<close> calls that return, none of the \<^verbatim>\<open>remove\<close> calls matching a node
  with two children, the in-order traversal yields a non-decreasing sequence of keys: at every
  node the keys of the left subtree are at most its key and the keys of the right subtree are
  at least its key.
\<close>

theorem ordem_preservada:
  "evita_sucessor Nulo cs \<Longrightarrow> executa Nulo cs = Inr t \<Longrightarrow> abb t \<and> abb_nos t"
  using executa_abb [of Nulo cs t] by (simp add: abb_nos_iff abb_def)

theorem ordem_preservada_witness:
  "evita_sucessor Nulo [Insere 10, Insere 5, Insere 5, Insere 12, Remove (12::int)]
   \<and> executa Nulo [Insere 10, Insere 5, Insere 5, Insere 12, Remove (12::int)]
       = Inr (No 5 (No 5 Nulo Nulo 0) (No 10 Nulo Nulo 0) 1)
   \<and> abb (No (5::int) (No 5 Nulo Nulo 0) (No 10 Nulo Nulo 0) 1)
   \<and> abb_nos (No (5::int) (No 5 Nulo Nulo 0) (No 10 Nulo Nulo 0) 1)"
proof -
  let ?cs = "[Insere 10, Insere 5, Insere 5, Insere 12, Remove (12::int)]"
  let ?t = "No (5::int) (No 5 Nulo Nulo 0) (No 10 Nulo Nulo 0) 1"
  have a: "evita_sucessor Nulo ?cs" by (simp add: avalia)
  have b: "executa Nulo ?cs = Inr ?t" by (simp add: avalia)
  from ordem_preservada [OF a b] a b show ?thesis by simp
qed

subsection \<open>The height function\<close>

text \<open>
  C5, as stated, fails on the leaf that the first insertion creates: \<^verbatim>\<open>altura\<close> returns 0,
  the cached field holds 1.
\<close>

theorem altura_difere_do_atributo:
  "insere Nulo (7::int) = Inr (No 7 Nulo Nulo 1)
   \<and> altura (No (7::int) Nulo Nulo 1) \<noteq> altura_atributo (No (7::int) Nulo Nulo 1)"
  by (simp add: avalia)

text \<open>
  C5, amended.  \<^verbatim>\<open>altura\<close> returns \<open>-1\<close> on an absent node and, on a present node, one more
  than the larger of the heights it computes for the two children; the cached field has no
  influence on the result, and the result is the cached field whenever every cached height of
  the subtree is correct.
\<close>

theorem altura_recalcula:
  "altura Nulo = - 1
   \<and> altura (No c l r h) = 1 + max (altura l) (altura r)
   \<and> altura (No c l r h) = altura (No c l r h')
   \<and> (alturas_ok (No c l r h) \<longrightarrow> altura (No c l r h) = h)"
  using alturas_ok_altura [of "No c l r h"] by simp

theorem altura_recalcula_witness:
  "alturas_ok (No (10::int) (No 5 Nulo Nulo 0) Nulo 1)
   \<and> altura (No (10::int) (No 5 Nulo Nulo 0) Nulo 1) = 1"
  using altura_recalcula [of 10 "No (5::int) Nulo Nulo 0" Nulo 1] by simp

subsection \<open>Pre-order display\<close>

text \<open>
  C10.  On the empty tree (root absent) the pre-order display returns the empty string.
\<close>

theorem exibe_pre_ordem_vazia: "exibe_pre_ordem str Nulo = ''''"
  by (simp add: exibe_pre_ordem_def)

end
